theory Spec2Isabelle
  imports Complex_Main
begin

section \<open>Python and numpy primitives used by the tuning application\<close>

text \<open>
  Python floats are modelled by the real numbers they denote: rounding and overflow are
  not modelled, and every input value is finite. The values that numpy computes
  (\<^verbatim>\<open>np.mean\<close> returns a \<^verbatim>\<open>np.float64\<close>, and arithmetic with one stays in
  \<^verbatim>\<open>np.float64\<close>) may also be nan or an infinity, because numpy divides by zero and
  takes the mean of an empty list with a warning instead of an exception.
\<close>

datatype py_error = IndexError | ValueError | TypeError

datatype npfloat = Fin real | PInf | NInf | NaN

fun np_sgn :: "npfloat \<Rightarrow> int" where
  "np_sgn (Fin x) = (if x > 0 then 1 else if x < 0 then -1 else 0)"
| "np_sgn PInf = 1"
| "np_sgn NInf = -1"
| "np_sgn NaN = 0"

fun np_neg :: "npfloat \<Rightarrow> npfloat" where
  "np_neg (Fin x) = Fin (- x)"
| "np_neg PInf = NInf"
| "np_neg NInf = PInf"
| "np_neg NaN = NaN"

fun np_add :: "npfloat \<Rightarrow> npfloat \<Rightarrow> npfloat" where
  "np_add NaN y = NaN"
| "np_add x NaN = NaN"
| "np_add (Fin x) (Fin y) = Fin (x + y)"
| "np_add (Fin x) y = y"
| "np_add x (Fin y) = x"
| "np_add x y = (if x = y then x else NaN)"

definition np_sub :: "npfloat \<Rightarrow> npfloat \<Rightarrow> npfloat" where
  "np_sub x y = np_add x (np_neg y)"

fun np_mul :: "npfloat \<Rightarrow> npfloat \<Rightarrow> npfloat" where
  "np_mul NaN y = NaN"
| "np_mul x NaN = NaN"
| "np_mul (Fin x) (Fin y) = Fin (x * y)"
| "np_mul x y =
     (let s = np_sgn x * np_sgn y in if s = 0 then NaN else if s > 0 then PInf else NInf)"

fun np_div :: "npfloat \<Rightarrow> npfloat \<Rightarrow> npfloat" where
  "np_div NaN y = NaN"
| "np_div x NaN = NaN"
| "np_div (Fin x) (Fin y) =
     (if y \<noteq> 0 then Fin (x / y)
      else if x > 0 then PInf else if x < 0 then NInf else NaN)"
| "np_div (Fin x) y = Fin 0"
| "np_div x (Fin y) = (if np_sgn x * np_sgn (Fin y) < 0 then NInf else PInf)"
| "np_div x y = NaN"

fun np_less :: "npfloat \<Rightarrow> npfloat \<Rightarrow> bool" where
  "np_less NaN y = False"
| "np_less x NaN = False"
| "np_less (Fin x) (Fin y) = (x < y)"
| "np_less x PInf = (x \<noteq> PInf)"
| "np_less NInf y = (y \<noteq> NInf)"
| "np_less x y = False"

fun np_ge :: "npfloat \<Rightarrow> npfloat \<Rightarrow> bool" where
  "np_ge NaN y = False"
| "np_ge x NaN = False"
| "np_ge x y = (\<not> np_less x y)"

text \<open>\<^verbatim>\<open>np.mean(xs)\<close>: the arithmetic mean, nan for an empty list.\<close>

definition np_mean :: "real list \<Rightarrow> npfloat" where
  "np_mean xs = (if xs = [] then NaN else Fin (sum_list xs / real (length xs)))"

text \<open>\<^verbatim>\<open>xs[i]\<close>: the indices \<open>-len(xs) .. -1\<close> address the list from its end; any
  index outside \<open>-len(xs) .. len(xs) - 1\<close> raises IndexError.\<close>

definition py_index :: "'a list \<Rightarrow> int \<Rightarrow> py_error + 'a" where
  "py_index xs i =
     (if 0 \<le> i \<and> i < int (length xs) then Inr (xs ! nat i)
      else if - int (length xs) \<le> i \<and> i < 0 then Inr (xs ! nat (int (length xs) + i))
      else Inl IndexError)"

text \<open>\<^verbatim>\<open>xs[i:]\<close> and \<^verbatim>\<open>xs[lo:hi]\<close>: slices clamp their bounds and never raise.\<close>

definition py_clamp :: "'a list \<Rightarrow> int \<Rightarrow> nat" where
  "py_clamp xs i =
     (let n = int (length xs) in if i < 0 then nat (max 0 (n + i)) else nat (min i n))"

definition py_slice_from :: "'a list \<Rightarrow> int \<Rightarrow> 'a list" where
  "py_slice_from xs i = drop (py_clamp xs i) xs"

definition py_slice :: "'a list \<Rightarrow> int \<Rightarrow> int \<Rightarrow> 'a list" where
  "py_slice xs lo hi = drop (py_clamp xs lo) (take (py_clamp xs hi) xs)"

text \<open>\<^verbatim>\<open>max(xs)\<close> raises ValueError on an empty sequence.\<close>

definition py_max :: "real list \<Rightarrow> py_error + real" where
  "py_max xs = (case xs of [] \<Rightarrow> Inl ValueError | x # ys \<Rightarrow> Inr (fold max ys x))"

text \<open>\<^verbatim>\<open>int(x)\<close> of a finite float truncates towards zero.\<close>

definition py_int :: "real \<Rightarrow> int" where
  "py_int x = (if x \<ge> 0 then \<lfloor>x\<rfloor> else \<lceil>x\<rceil>)"

text \<open>\<^verbatim>\<open>range(lo, hi)\<close> and \<^verbatim>\<open>range(hi, lo, -1)\<close> as the lists of indices they run through.\<close>

definition py_range :: "int \<Rightarrow> int \<Rightarrow> int list" where
  "py_range lo hi = [lo..hi - 1]"

definition py_range_down :: "int \<Rightarrow> int \<Rightarrow> int list" where
  "py_range_down hi lo = rev [lo + 1..hi]"

text \<open>The truth value of an index that may be None: None and 0 are both false.\<close>

fun py_truthy :: "int option \<Rightarrow> bool" where
  "py_truthy None = False"
| "py_truthy (Some i) = (i \<noteq> 0)"

section \<open>StepResponseAnalyzer\<close>

record analyzer =
  time :: "real list"
  pv :: "real list"
  sp :: "real list"
  output_list :: "real list"
  step_start_time :: "real option"
  initial_value :: npfloat
  final_value :: real
  step_amplitude :: npfloat

definition reset :: "analyzer \<Rightarrow> analyzer" where
  "reset a = a\<lparr>time := [], pv := [], sp := [], output_list := [],
               step_start_time := None, initial_value := Fin 0,
               final_value := 0, step_amplitude := Fin 0\<rparr>"

definition add_data :: "analyzer \<Rightarrow> real \<Rightarrow> real \<Rightarrow> real \<Rightarrow> real \<Rightarrow> analyzer" where
  "add_data a t x s u =
     a\<lparr>time := time a @ [t], pv := pv a @ [x], sp := sp a @ [s], output_list := output_list a @ [u]\<rparr>"

type_synonym metrics = "string \<rightharpoonup> npfloat"

text \<open>The step-detection loop: the first \<open>i\<close> in \<^verbatim>\<open>range(1, len(sp))\<close> whose setpoint
  differs from the previous one by more than 0.1.\<close>

definition is_step :: "real list \<Rightarrow> nat \<Rightarrow> bool" where
  "is_step sps i = (\<bar>sps ! i - sps ! (i - 1)\<bar> > 0.1)"

definition find_step :: "real list \<Rightarrow> nat option" where
  "find_step sps = find (is_step sps) [1..<length sps]"

text \<open>The rise-time loop over the indices still to visit, with the two indices found so
  far; it stops at the first index that reaches the 90 percent threshold.\<close>

fun rise_loop :: "real list \<Rightarrow> npfloat \<Rightarrow> npfloat \<Rightarrow> int list \<Rightarrow> int option \<Rightarrow> int option
    \<Rightarrow> py_error + (int option \<times> int option)" where
  "rise_loop pvs rise_10 rise_90 [] rs re = Inr (rs, re)"
| "rise_loop pvs rise_10 rise_90 (i # is) rs re =
     (case py_index pvs i of
        Inl e \<Rightarrow> Inl e
      | Inr x \<Rightarrow>
          (let rs' = (if rs = None \<and> np_ge (Fin x) rise_10 then Some i else rs)
           in if re = None \<and> np_ge (Fin x) rise_90 then Inr (rs', Some i)
              else rise_loop pvs rise_10 rise_90 is rs' re))"

text \<open>The settling loop: the first index, from the end, whose process value is outside
  the band; None when the loop runs to its end.\<close>

fun settling_loop :: "real list \<Rightarrow> real \<Rightarrow> npfloat \<Rightarrow> int list \<Rightarrow> py_error + int option" where
  "settling_loop pvs fv band [] = Inr None"
| "settling_loop pvs fv band (i # is) =
     (case py_index pvs i of
        Inl e \<Rightarrow> Inl e
      | Inr x \<Rightarrow>
          if np_less band (Fin \<bar>x - fv\<bar>) then Inr (Some i)
          else settling_loop pvs fv band is)"

text \<open>The part of \<^verbatim>\<open>analyze\<close> after the step has been found and the four attributes
  have been stored.\<close>

definition rise_time_entry :: "analyzer \<Rightarrow> int option \<Rightarrow> int option \<Rightarrow> py_error + metrics" where
  "rise_time_entry a rs re =
     (if py_truthy rs \<and> py_truthy re then
        (case (rs, re) of
           (Some s, Some e) \<Rightarrow>
             (case py_index (time a) e of
                Inl err \<Rightarrow> Inl err
              | Inr te \<Rightarrow>
                  (case py_index (time a) s of
                     Inl err \<Rightarrow> Inl err
                   | Inr ts \<Rightarrow> Inr [''rise_time'' \<mapsto> Fin (te - ts)]))
         | _ \<Rightarrow> Inr Map.empty)
      else Inr Map.empty)"

definition settling_entry :: "analyzer \<Rightarrow> real \<Rightarrow> int \<Rightarrow> py_error + real" where
  "settling_entry a t0 k =
     (let settling_band = np_mul (Fin 0.02) (step_amplitude a)
      in case settling_loop (pv a) (final_value a) settling_band
                (py_range_down (int (length (pv a)) - 1) k) of
           Inl e \<Rightarrow> Inl e
         | Inr (Some i) \<Rightarrow>
             (case py_index (time a) i of Inl e \<Rightarrow> Inl e | Inr t \<Rightarrow> Inr (t - t0))
         | Inr None \<Rightarrow>
             (case py_index (time a) (-1) of Inl e \<Rightarrow> Inl e | Inr t \<Rightarrow> Inr (t - t0)))"

definition calculate_metrics :: "analyzer \<Rightarrow> py_error + metrics" where
  "calculate_metrics a =
     (case step_start_time a of
        None \<Rightarrow> Inl TypeError
      | Some t0 \<Rightarrow>
          (let rise_10 = np_add (initial_value a) (np_mul (Fin 0.1) (step_amplitude a));
               rise_90 = np_add (initial_value a) (np_mul (Fin 0.9) (step_amplitude a));
               k = py_int (t0 * 10)
           in case rise_loop (pv a) rise_10 rise_90 (py_range k (int (length (pv a)))) None None of
                Inl e \<Rightarrow> Inl e
              | Inr (rs, re) \<Rightarrow>
                  (case rise_time_entry a rs re of
                     Inl e \<Rightarrow> Inl e
                   | Inr m1 \<Rightarrow>
                       (case py_max (py_slice_from (pv a) k) of
                          Inl e \<Rightarrow> Inl e
                        | Inr max_pv \<Rightarrow>
                            (let m2 = m1(''overshoot'' \<mapsto>
                                   np_mul (np_div (Fin (max_pv - final_value a)) (step_amplitude a))
                                          (Fin 100))
                             in case settling_entry a t0 k of
                                  Inl e \<Rightarrow> Inl e
                                | Inr st \<Rightarrow>
                                    (let m3 = m2(''settling_time'' \<mapsto> Fin st);
                                         steady_state_pv = np_mean (py_slice_from (pv a) (-20))
                                     in Inr (m3(''steady_state_error'' \<mapsto>
                                           np_sub (Fin (final_value a)) steady_state_pv))))))))"

text \<open>\<^verbatim>\<open>analyze\<close> returns None (no metrics) or the metrics dictionary, or raises; the
  analyzer it leaves behind is the second component.\<close>

definition analyze :: "analyzer \<Rightarrow> (py_error + metrics option) \<times> analyzer" where
  "analyze a =
     (if length (time a) < 10 then (Inr None, a)
      else case find_step (sp a) of
             None \<Rightarrow> (Inr None, a)
           | Some i \<Rightarrow>
               (case py_index (time a) (int i) of
                  Inl e \<Rightarrow> (Inl e, a)
                | Inr t \<Rightarrow>
                    (let a1 = a\<lparr>step_start_time := Some t\<rparr>;
                         a2 = a1\<lparr>initial_value :=
                                  np_mean (py_slice (pv a1) (max 0 (int i - 10)) (int i))\<rparr>;
                         a3 = a2\<lparr>final_value := sp a2 ! i\<rparr>;
                         a4 = a3\<lparr>step_amplitude :=
                                  np_sub (Fin (final_value a3)) (initial_value a3)\<rparr>
                     in (map_sum id Some (calculate_metrics a4), a4))))"

section \<open>PIDTuningApp: telemetry store and min/max tracking\<close>

text \<open>\<^verbatim>\<open>deque(maxlen=n).append(x)\<close>: a full deque drops its leftmost item.\<close>

definition deque_append :: "nat \<Rightarrow> 'a list \<Rightarrow> 'a \<Rightarrow> 'a list" where
  "deque_append maxlen d x = (if length d < maxlen then d @ [x] else tl (d @ [x]))"

text \<open>
  The six min/max variables are Tk string variables. Their text is either \<^verbatim>\<open>N/A\<close> or a
  number printed with a fixed number of decimals (\<^verbatim>\<open>f"{x:.2f}"\<close>, \<^verbatim>\<open>f"{x:.0f}"\<close>), which
  \<^verbatim>\<open>float\<close> reads back. A printed number is modelled by the value it reads back as:
  \<open>format_f d x\<close> is \<^verbatim>\<open>float(f"{x:.df}")\<close>, the nearest multiple of \<open>10\<^sup>-\<^sup>d\<close>, a tie
  going to the even digit.
\<close>

datatype minmax_text = NA | Shown real

definition round_half_even :: "real \<Rightarrow> int" where
  "round_half_even x =
     (let f = \<lfloor>x\<rfloor>; r = x - of_int f
      in if r < 1 / 2 then f else if r > 1 / 2 then f + 1 else if even f then f else f + 1)"

definition format_f :: "nat \<Rightarrow> real \<Rightarrow> real" where
  "format_f d x = of_int (round_half_even (x * 10 ^ d)) / 10 ^ d"

definition max_points :: nat where
  "max_points = 864000"

record app =
  time_data :: "real list"
  pv_data :: "real list"
  sp_data :: "real list"
  output_data :: "real list"
  error_data :: "real list"
  p_term_data :: "real list"
  i_term_data :: "real list"
  d_term_data :: "real list"
  analyzer :: analyzer
  step_test_active :: bool
  pv_min :: minmax_text
  pv_max :: minmax_text
  error_min :: minmax_text
  error_max :: minmax_text
  output_min :: minmax_text
  output_max :: minmax_text

text \<open>The state that \<^verbatim>\<open>__init__\<close> sets up.\<close>

definition new_analyzer :: analyzer where
  "new_analyzer = \<lparr>time = [], pv = [], sp = [], output_list = [],
                    step_start_time = None, initial_value = Fin 0,
                    final_value = 0, step_amplitude = Fin 0\<rparr>"

definition init_app :: app where
  "init_app = \<lparr>time_data = [], pv_data = [], sp_data = [], output_data = [],
                error_data = [], p_term_data = [], i_term_data = [], d_term_data = [],
                analyzer = new_analyzer, step_test_active = False,
                pv_min = NA, pv_max = NA, error_min = NA, error_max = NA,
                output_min = NA, output_max = NA\<rparr>"

definition update_minmax :: "app \<Rightarrow> real \<Rightarrow> real \<Rightarrow> real \<Rightarrow> real \<Rightarrow> app" where
  "update_minmax s pv' sp' output' error' =
     (let s1 = s\<lparr>pv_min := (case pv_min s of
                    NA \<Rightarrow> Shown (format_f 2 pv')
                  | Shown c \<Rightarrow> Shown (format_f 2 (min pv' c)))\<rparr>;
          s2 = s1\<lparr>pv_max := (case pv_max s1 of
                    NA \<Rightarrow> Shown (format_f 2 pv')
                  | Shown c \<Rightarrow> Shown (format_f 2 (max pv' c)))\<rparr>;
          s3 = s2\<lparr>error_min := (case error_min s2 of
                    NA \<Rightarrow> Shown (format_f 2 error')
                  | Shown c \<Rightarrow> Shown (format_f 2 (min error' c)))\<rparr>;
          s4 = s3\<lparr>error_max := (case error_max s3 of
                    NA \<Rightarrow> Shown (format_f 2 error')
                  | Shown c \<Rightarrow> Shown (format_f 2 (max error' c)))\<rparr>;
          s5 = s4\<lparr>output_min := (case output_min s4 of
                    NA \<Rightarrow> Shown (format_f 0 output')
                  | Shown c \<Rightarrow> Shown (format_f 0 (min output' c)))\<rparr>
      in s5\<lparr>output_max := (case output_max s5 of
                    NA \<Rightarrow> Shown (format_f 0 output')
                  | Shown c \<Rightarrow> Shown (format_f 0 (max output' c)))\<rparr>)"

definition clear_minmax :: "app \<Rightarrow> app" where
  "clear_minmax s = s\<lparr>pv_min := NA, pv_max := NA, error_min := NA, error_max := NA,
                       output_min := NA, output_max := NA\<rparr>"

text \<open>\<^verbatim>\<open>clear_plot\<close> ends with \<^verbatim>\<open>update_plot()\<close>, which only reads the eight series and
  redraws the chart; the chart is not part of the state modelled here.\<close>

definition clear_plot :: "app \<Rightarrow> app" where
  "clear_plot s = s\<lparr>time_data := [], pv_data := [], sp_data := [], output_data := [],
                     error_data := [], p_term_data := [], i_term_data := [],
                     d_term_data := []\<rparr>"

text \<open>
  The decoded messages of the queue. A data message carries the keys \<^verbatim>\<open>time\<close> (in
  milliseconds), \<^verbatim>\<open>pv\<close>, \<^verbatim>\<open>sp\<close>, \<^verbatim>\<open>output\<close>, \<^verbatim>\<open>error\<close> and, optionally, \<^verbatim>\<open>P\<close>,
  \<^verbatim>\<open>I\<close>, \<^verbatim>\<open>D\<close>. A status message only updates the parameter widgets, which are not
  part of the state modelled here.
\<close>

record data_msg =
  msg_time :: real
  msg_pv :: real
  msg_sp :: real
  msg_output :: real
  msg_error :: real
  msg_P :: "real option"
  msg_I :: "real option"
  msg_D :: "real option"

datatype msg = Data data_msg | Status | StepTestStarted | StepTestComplete

definition msg_get :: "real option \<Rightarrow> real \<Rightarrow> real" where
  "msg_get v dflt = (case v of None \<Rightarrow> dflt | Some x \<Rightarrow> x)"

definition process_msg :: "app \<Rightarrow> msg \<Rightarrow> app" where
  "process_msg s m =
     (case m of
        Data d \<Rightarrow>
          (let t = msg_time d / 1000;
               s1 = s\<lparr>time_data := deque_append max_points (time_data s) t,
                      pv_data := deque_append max_points (pv_data s) (msg_pv d),
                      sp_data := deque_append max_points (sp_data s) (msg_sp d),
                      output_data := deque_append max_points (output_data s) (msg_output d),
                      error_data := deque_append max_points (error_data s) (msg_error d),
                      p_term_data := deque_append max_points (p_term_data s) (msg_get (msg_P d) 0),
                      i_term_data := deque_append max_points (i_term_data s) (msg_get (msg_I d) 0),
                      d_term_data := deque_append max_points (d_term_data s) (msg_get (msg_D d) 0)\<rparr>;
               s2 = (if step_test_active s1
                     then s1\<lparr>analyzer := add_data (analyzer s1) t (msg_pv d) (msg_sp d) (msg_output d)\<rparr>
                     else s1)
           in update_minmax s2 (msg_pv d) (msg_sp d) (msg_output d) (msg_error d))
      | Status \<Rightarrow> s
      | StepTestStarted \<Rightarrow> s\<lparr>step_test_active := True, analyzer := reset (analyzer s)\<rparr>
      | StepTestComplete \<Rightarrow> s\<lparr>step_test_active := False\<rparr>)"

text \<open>\<^verbatim>\<open>process_data\<close> drains the queue, one message after the other.\<close>

definition process_data :: "app \<Rightarrow> msg list \<Rightarrow> app" where
  "process_data s ms = foldl process_msg s ms"

section \<open>Recorded traces used as concrete inputs\<close>

definition recorded :: "real list \<Rightarrow> real list \<Rightarrow> real list \<Rightarrow> analyzer" where
  "recorded ts xs ss = new_analyzer\<lparr>time := ts, pv := xs, sp := ss, output_list := map (\<lambda>_. 0) ts\<rparr>"

text \<open>Ten samples at 2 Hz from a controller that has been up for 100 seconds; the
  setpoint steps from 25 to 50 at sample 1.\<close>

definition late_trace :: analyzer where
  "late_trace = recorded [100, 100.5, 101, 101.5, 102, 102.5, 103, 103.5, 104, 104.5]
                         [25, 25, 25, 25, 25, 25, 25, 25, 25, 25]
                         [25, 50, 50, 50, 50, 50, 50, 50, 50, 50]"

text \<open>Ten samples, 1/64 s apart, from time 0; the setpoint steps from 25 to 50 at
  sample 2 and the process value climbs to it.\<close>

definition early_trace :: analyzer where
  "early_trace = recorded [0, 1 / 64, 2 / 64, 3 / 64, 4 / 64, 5 / 64, 6 / 64, 7 / 64, 8 / 64, 9 / 64]
                          [30, 20, 20, 30, 40, 48, 50, 50, 50, 50]
                          [25, 25, 50, 50, 50, 50, 50, 50, 50, 50]"

definition short_trace :: analyzer where
  "short_trace = recorded [0, 0.1, 0.2] [25, 25, 30] [25, 50, 50]"

definition flat_trace :: analyzer where
  "flat_trace = recorded [0, 0.1, 0.2, 0.3, 0.4, 0.5, 0.6, 0.7, 0.8, 0.9]
                         [24, 25, 26, 25, 24, 25, 26, 25, 24, 25]
                         (replicate 10 25)"

definition ramp :: "nat \<Rightarrow> real list" where
  "ramp n = map (\<lambda>i. real i / 10) [0..<n]"

text \<open>Twenty-one samples at 10 Hz from time 0 whose setpoint is 25 and steps to 50 at
  sample 20; the process value sits at 0 in the first trace and at 25 in the second.\<close>

definition cold_trace :: analyzer where
  "cold_trace = recorded (ramp 21) (replicate 21 0) (replicate 20 25 @ [50])"

definition warm_trace :: analyzer where
  "warm_trace = recorded (ramp 21) (replicate 21 25) (replicate 20 25 @ [50])"

text \<open>Ten samples at 10 Hz from time 0 with a setpoint step from 20 to 30 at sample 2:
  a response that overshoots and settles, and one that is at the setpoint at once;
  with the metrics that \<^verbatim>\<open>analyze\<close> computes for them.\<close>

definition response_trace :: analyzer where
  "response_trace = recorded [0, 0.1, 0.2, 0.3, 0.4, 0.5, 0.6, 0.7, 0.8, 0.9]
                             [20, 20, 20, 23, 26, 29.5, 31, 30, 30, 30]
                             [20, 20, 30, 30, 30, 30, 30, 30, 30, 30]"


definition response_metrics :: metrics where
  "response_metrics = [''rise_time'' \<mapsto> Fin 0.2, ''overshoot'' \<mapsto> Fin 10,
                       ''settling_time'' \<mapsto> Fin 0.4, ''steady_state_error'' \<mapsto> Fin 4.05]"


text \<open>Ten samples whose process value is already at the new setpoint when it steps, so
  that the step amplitude is 0.\<close>

definition still_trace :: analyzer where
  "still_trace = recorded [0, 0.1, 0.2, 0.3, 0.4, 0.5, 0.6, 0.7, 0.8, 0.9]
                          [50, 50, 50, 50, 50, 51, 50, 50, 50, 50]
                          [25, 25, 50, 50, 50, 50, 50, 50, 50, 50]"



section \<open>Notions used to state the properties\<close>

text \<open>An index that \<^verbatim>\<open>xs[i]\<close> accepts.\<close>

definition index_ok :: "'a list \<Rightarrow> int \<Rightarrow> bool" where
  "index_ok xs i \<longleftrightarrow> - int (length xs) \<le> i \<and> i < int (length xs)"

text \<open>\<open>i\<close> is the first index from 1 on at which the setpoint jumps by more than 0.1.\<close>

definition first_step :: "real list \<Rightarrow> nat \<Rightarrow> bool" where
  "first_step sps i \<longleftrightarrow>
     1 \<le> i \<and> i < length sps \<and> \<bar>sps ! i - sps ! (i - 1)\<bar> > 0.1
     \<and> (\<forall>j \<in> {1..<i}. \<bar>sps ! j - sps ! (j - 1)\<bar> \<le> 0.1)"

text \<open>The mean of the up to ten values before index \<open>i\<close>: those at the indices
  \<open>i - 10, \<dots>, i - 1\<close>, or \<open>0, \<dots>, i - 1\<close> when \<open>i < 10\<close> (the subtraction on
  \<open>nat\<close> stops at 0).\<close>

definition mean_before :: "real list \<Rightarrow> nat \<Rightarrow> real" where
  "mean_before xs i = (\<Sum>j = i - 10..<i. xs ! j) / real (i - (i - 10))"

text \<open>All eight series of the store hold \<open>n\<close> samples.\<close>

definition store_length :: "app \<Rightarrow> nat \<Rightarrow> bool" where
  "store_length s n \<longleftrightarrow>
     length (time_data s) = n \<and> length (pv_data s) = n \<and> length (sp_data s) = n
     \<and> length (output_data s) = n \<and> length (error_data s) = n \<and> length (p_term_data s) = n
     \<and> length (i_term_data s) = n \<and> length (d_term_data s) = n"

text \<open>A store filled to its capacity, and one data message.\<close>

definition full_store :: app where
  "full_store = init_app\<lparr>time_data := replicate max_points 0, pv_data := replicate max_points 0,
     sp_data := replicate max_points 0, output_data := replicate max_points 0,
     error_data := replicate max_points 0, p_term_data := replicate max_points 0,
     i_term_data := replicate max_points 0, d_term_data := replicate max_points 0\<rparr>"

definition sample_msg :: data_msg where
  "sample_msg = \<lparr>msg_time = 1500, msg_pv = 24.5, msg_sp = 25, msg_output = 128, msg_error = 0.5,
                  msg_P = Some 1, msg_I = None, msg_D = None\<rparr>"

text \<open>A data message that reports the process value \<open>x\<close>, and the four messages
  with the process values 5, 2, 9, 1.\<close>

definition pv_msg :: "real \<Rightarrow> data_msg" where
  "pv_msg x = \<lparr>msg_time = 0, msg_pv = x, msg_sp = 25, msg_output = 127.6, msg_error = 25 - x,
                msg_P = None, msg_I = None, msg_D = None\<rparr>"

definition four_msgs :: "data_msg list" where
  "four_msgs = map pv_msg [5, 2, 9, 1]"

section \<open>Properties of the analyzer\<close>

lemma map_sum_Some_not_None: "map_sum id Some x \<noteq> Inr None"
  by (cases x) auto

lemma find_step_None:
  "find_step sps = None \<longleftrightarrow>
     (\<forall>i. 1 \<le> i \<and> i < length sps \<longrightarrow> \<bar>sps ! i - sps ! (i - 1)\<bar> \<le> 0.1)"
  by (auto simp: find_step_def find_None_iff is_step_def not_less)

lemma analyze_lists:
  "time (snd (analyze a)) = time a \<and> pv (snd (analyze a)) = pv a
   \<and> sp (snd (analyze a)) = sp a \<and> output_list (snd (analyze a)) = output_list a"
  by (simp add: analyze_def Let_def split: option.splits sum.splits)

lemma analyze_attrs:
  "fst (analyze (a\<lparr>step_start_time := t, initial_value := x, final_value := y,
                    step_amplitude := z\<rparr>)) = fst (analyze a)"
  by (simp add: analyze_def Let_def split: option.splits sum.splits)

lemma analyze_snd_cases:
  "snd (analyze a) = a \<or>
   (\<exists>t x y z. snd (analyze a) =
      a\<lparr>step_start_time := t, initial_value := x, final_value := y, step_amplitude := z\<rparr>)"
  by (auto simp add: analyze_def Let_def split: option.splits sum.splits)

lemmas eval_defs =
  recorded_def new_analyzer_def analyze_def find_step_def is_step_def py_index_def
  py_slice_def py_slice_from_def py_clamp_def np_mean_def np_sub_def calculate_metrics_def
  py_int_def py_range_def py_range_down_def rise_time_entry_def settling_entry_def py_max_def
  Let_def upto_rec1

text \<open>
  C1 (analyze is total and never raises). The code raises: when
  \<^verbatim>\<open>int(step_start_time * 10)\<close> is at or past the end of the trace, the slice
  \<^verbatim>\<open>pv[int(step_start_time * 10):]\<close> is empty and \<^verbatim>\<open>max\<close> of it raises ValueError.
  On the ten samples of \<open>late_trace\<close> the step is found at sample 1, whose time is
  100.5, so the slice starts at index 1005.
\<close>

theorem analyze_raises_past_end: "fst (analyze late_trace) = Inl ValueError"
  by (simp add: late_trace_def eval_defs)

text \<open>
  C3 (rise_time is present if and only if the scan finds both threshold indices). The
  code tests the two indices for truth, so an index 0 counts as not found. On
  \<open>early_trace\<close> the scan starts at index 0 (the step time is 1/32), the thresholds are
  27.5 and 47.5, sample 0 is the first to reach the lower one and sample 5 the first to
  reach the upper one, and yet the result has no rise_time.
\<close>

theorem rise_time_missing_at_index_zero:
  "fst (analyze early_trace) =
     Inr (Some [''overshoot'' \<mapsto> Fin 0, ''settling_time'' \<mapsto> Fin (3 / 64),
                ''steady_state_error'' \<mapsto> Fin (56 / 5)])
   \<and> step_start_time (snd (analyze early_trace)) = Some (1 / 32)
   \<and> py_int (1 / 32 * 10) = 0
   \<and> initial_value (snd (analyze early_trace)) = Fin 25
   \<and> step_amplitude (snd (analyze early_trace)) = Fin 25
   \<and> pv early_trace ! 0 \<ge> 25 + 0.1 * 25 \<and> pv early_trace ! 5 \<ge> 25 + 0.9 * 25
   \<and> list_all (\<lambda>x. x < 25 + 0.9 * 25) (take 5 (pv early_trace))
   \<and> time early_trace ! 5 - time early_trace ! 0 = 5 / 64"
  by (simp add: early_trace_def eval_defs)

text \<open>
  \<^verbatim>\<open>analyze\<close> returns None exactly when the trace holds fewer than 10 samples or no
  index \<open>i \<ge> 1\<close> has \<open>\<bar>sp[i] - sp[i-1]\<bar> > 0.1\<close>.
\<close>

lemma analyze_returns_None_iff:
  "fst (analyze a) = Inr None \<longleftrightarrow>
     length (time a) < 10
     \<or> (\<forall>i. 1 \<le> i \<and> i < length (sp a) \<longrightarrow> \<bar>sp a ! i - sp a ! (i - 1)\<bar> \<le> 0.1)"
  unfolding find_step_None[symmetric]
  by (auto simp: analyze_def Let_def map_sum_Some_not_None split: option.splits sum.splits)

lemma analyze_returns_None_examples:
  "fst (analyze short_trace) = Inr None \<and> fst (analyze flat_trace) = Inr None
   \<and> fst (analyze late_trace) \<noteq> Inr None"
proof -
  have "fst (analyze short_trace) = Inr None"
    using analyze_returns_None_iff [of short_trace] by (simp add: short_trace_def recorded_def)
  moreover have "fst (analyze flat_trace) = Inr None"
  proof -
    have "\<forall>i. 1 \<le> i \<and> i < length (sp flat_trace)
              \<longrightarrow> \<bar>sp flat_trace ! i - sp flat_trace ! (i - 1)\<bar> \<le> 0.1"
      by (auto simp add: flat_trace_def recorded_def)
    then show ?thesis
      using analyze_returns_None_iff [of flat_trace] by blast
  qed
  moreover have "fst (analyze late_trace) \<noteq> Inr None"
  proof -
    have "\<not> (\<forall>i. 1 \<le> i \<and> i < length (sp late_trace)
              \<longrightarrow> \<bar>sp late_trace ! i - sp late_trace ! (i - 1)\<bar> \<le> 0.1)"
      by (simp add: late_trace_def recorded_def exI [of _ 1])
    moreover have "\<not> length (time late_trace) < 10"
      by (simp add: late_trace_def recorded_def)
    ultimately show ?thesis
      using analyze_returns_None_iff [of late_trace] by blast
  qed
  ultimately show ?thesis by simp
qed

text \<open>
  C4 (no metrics exactly when there are fewer than 10 samples or no setpoint step). The
  code yields no metrics in a third case: \<open>late_trace\<close> holds 10 samples and its setpoint
  steps at sample 1, and \<^verbatim>\<open>analyze\<close> returns neither metrics nor None, because
  \<^verbatim>\<open>max\<close> of the empty slice \<^verbatim>\<open>pv[1005:]\<close> raises ValueError.
\<close>

theorem no_metrics_despite_step:
  "length (time late_trace) = 10
   \<and> \<bar>sp late_trace ! 1 - sp late_trace ! 0\<bar> > 0.1
   \<and> fst (analyze late_trace) \<noteq> Inr None
   \<and> fst (analyze late_trace) = Inl ValueError"
  by (simp add: late_trace_def eval_defs)

text \<open>
  C9 (analyze is idempotent and does not change the trace). A second call on the
  analyzer that the first call leaves behind returns the same result, and the four
  recorded sequences are those of before the call.
\<close>

theorem analyze_idempotent:
  "fst (analyze (snd (analyze a))) = fst (analyze a)
   \<and> time (snd (analyze a)) = time a \<and> pv (snd (analyze a)) = pv a
   \<and> sp (snd (analyze a)) = sp a \<and> output_list (snd (analyze a)) = output_list a"
  using analyze_snd_cases [of a] analyze_lists [of a] by (auto simp: analyze_attrs)

subsection \<open>Step detection\<close>

lemma first_step_find: 
  assumes "first_step sps i" shows "find_step sps = Some i"
proof -
  from assms have i: "1 \<le> i" "i < length sps" "is_step sps i" "\<forall>j\<in>{1..<i}. \<not> is_step sps j"
    by (auto simp: first_step_def is_step_def not_less)
  have "\<exists>k<length [1..<length sps]. is_step sps ([1..<length sps] ! k) \<and> i = [1..<length sps] ! k
          \<and> (\<forall>j<k. \<not> is_step sps ([1..<length sps] ! j))"
    using i by (intro exI [of _ "i - 1"]) auto
  then show ?thesis unfolding find_step_def find_Some_iff by simp
qed

lemma sum_list_drop_take:
  "i \<le> length xs \<Longrightarrow> sum_list (drop k (take i xs)) = (\<Sum>j = k..<i. (xs::real list) ! j)"
proof (cases "k \<le> i")
  case False
  then show ?thesis by simp
next
  case True
  assume i: "i \<le> length xs"
  have "sum_list (drop k (take i xs)) = (\<Sum>j = 0..<i - k. drop k (take i xs) ! j)"
    using i by (simp add: sum_list_sum_nth)
  also have "\<dots> = (\<Sum>j = 0..<i - k. xs ! (j + k))"
    using i by (intro sum.cong) (auto simp: add.commute)
  also have "\<dots> = (\<Sum>j = 0 + k..<(i - k) + k. xs ! j)"
    by (simp only: sum.shift_bounds_nat_ivl)
  finally show ?thesis using True by simp
qed

lemma mean_slice:
  assumes "1 \<le> i" "i \<le> length xs"
  shows "np_mean (py_slice xs (max 0 (int i - 10)) (int i)) = Fin (mean_before xs i)"
proof -
  have lo: "py_clamp xs (max 0 (int i - 10)) = i - 10"
    using assms by (auto simp: py_clamp_def Let_def)
  have hi: "py_clamp xs (int i) = i"
    using assms by (auto simp: py_clamp_def Let_def)
  have ne: "drop (i - 10) (take i xs) \<noteq> []" using assms by simp
  have len: "length (drop (i - 10) (take i xs)) = i - (i - 10)" using assms by simp
  show ?thesis unfolding np_mean_def py_slice_def lo hi mean_before_def
    using ne len sum_list_drop_take [OF assms(2), of "i - 10"] by simp
qed

lemma analyze_step_attrs:
  assumes "length (pv a) = length (time a)" "length (sp a) = length (time a)"
    "10 \<le> length (time a)" "first_step (sp a) i"
  shows "snd (analyze a) = a\<lparr>step_start_time := Some (time a ! i),
            initial_value := Fin (mean_before (pv a) i), final_value := sp a ! i,
            step_amplitude := Fin (sp a ! i - mean_before (pv a) i)\<rparr>"
proof -
  from assms(4) have i: "1 \<le> i" "i < length (sp a)" by (auto simp: first_step_def)
  then have t: "py_index (time a) (int i) = Inr (time a ! i)"
    using assms by (simp add: py_index_def)
  have m: "np_mean (py_slice (pv a) (max 0 (int i - 10)) (int i)) = Fin (mean_before (pv a) i)"
    using i assms by (intro mean_slice) auto
  show ?thesis
    using assms(3) by (simp add: analyze_def first_step_find [OF assms(4)] t m Let_def np_sub_def)
qed

lemma first_step_20: "first_step (replicate 20 25 @ 50 # rest) 20"
  by (auto simp: first_step_def nth_append)

lemma find_step_first: 
  assumes "find_step sps = Some i" shows "first_step sps i"
proof -
  from assms obtain k where k: "k < length [1..<length sps]" "is_step sps ([1..<length sps] ! k)"
      "i = [1..<length sps] ! k" "\<forall>j<k. \<not> is_step sps ([1..<length sps] ! j)"
    unfolding find_step_def find_Some_iff by blast
  then have i: "i = Suc k" "i < length sps" by auto
  have "\<not> is_step sps j" if "j \<in> {1..<i}" for j
  proof -
    from that i have "j - 1 < k" "[1..<length sps] ! (j - 1) = j" by auto
    with k(4) show ?thesis by metis
  qed
  with k i show ?thesis by (auto simp: first_step_def is_step_def not_less)
qed

lemma map_sum_Some_eq: "map_sum id Some x = Inr (Some m) \<longleftrightarrow> x = Inr m"
  by (cases x) auto

lemma analyze_Some:
  assumes "fst (analyze a) = Inr (Some m)"
  obtains i t where "10 \<le> length (time a)" "find_step (sp a) = Some i"
    "py_index (time a) (int i) = Inr t"
    "snd (analyze a) = a\<lparr>step_start_time := Some t,
        initial_value := np_mean (py_slice (pv a) (max 0 (int i - 10)) (int i)),
        final_value := sp a ! i,
        step_amplitude := np_sub (Fin (sp a ! i))
                            (np_mean (py_slice (pv a) (max 0 (int i - 10)) (int i)))\<rparr>"
    "calculate_metrics (snd (analyze a)) = Inr m"
  using assms
  by (auto simp: analyze_def Let_def not_less map_sum_Some_eq
           split: if_splits option.splits sum.splits)

lemma calculate_metrics_Inr:
  assumes "calculate_metrics a = Inr m"
  obtains t0 rs re m1 max_pv st where "step_start_time a = Some t0"
    "rise_time_entry a rs re = Inr m1"
    "py_max (py_slice_from (pv a) (py_int (t0 * 10))) = Inr max_pv"
    "settling_entry a t0 (py_int (t0 * 10)) = Inr st"
    "m = m1(''overshoot'' \<mapsto> np_mul (np_div (Fin (max_pv - final_value a)) (step_amplitude a)) (Fin 100),
            ''settling_time'' \<mapsto> Fin st,
            ''steady_state_error'' \<mapsto> np_sub (Fin (final_value a)) (np_mean (py_slice_from (pv a) (- 20))))"
  using assms
  by (auto simp: calculate_metrics_def Let_def split: option.splits sum.splits prod.splits)

lemma rise_time_entry_dom: "rise_time_entry a rs re = Inr m1 \<Longrightarrow> dom m1 \<subseteq> {''rise_time''}"
  by (auto simp: rise_time_entry_def split: if_splits option.splits sum.splits)

lemma mean_before_replicate: "mean_before (replicate 21 c) 20 = c"
  by (simp add: mean_before_def)

text \<open>
  C5 (step detection), as amended. For a trace of at least 10 samples whose sequences
  have one length, and the first index \<open>i \<ge> 1\<close> with \<open>\<bar>sp[i] - sp[i-1]\<bar> > 0.1\<close>,
  \<^verbatim>\<open>analyze\<close> stores \<open>step_start_time = time[i]\<close>, \<open>initial_value\<close> = the mean of
  \<open>pv\<close> over the up to ten samples before \<open>i\<close>, \<open>final_value = sp[i]\<close> and
  \<open>step_amplitude = final_value - initial_value\<close>. For a setpoint at 25 that jumps to
  50 at sample 20, \<open>step_start_time\<close> is the time of sample 20, and \<open>step_amplitude\<close>
  is 25 when the mean of \<open>pv\<close> over samples 10 to 19 is 25.
\<close>

theorem step_detection:
  assumes "length (pv a) = length (time a)" "length (sp a) = length (time a)"
    "10 \<le> length (time a)"
  shows "(\<forall>i. first_step (sp a) i \<longrightarrow>
            step_start_time (snd (analyze a)) = Some (time a ! i)
            \<and> initial_value (snd (analyze a)) = Fin (mean_before (pv a) i)
            \<and> final_value (snd (analyze a)) = sp a ! i
            \<and> step_amplitude (snd (analyze a)) = Fin (sp a ! i - mean_before (pv a) i))
       \<and> (\<forall>rest. sp a = replicate 20 25 @ 50 # rest \<and> mean_before (pv a) 20 = 25 \<longrightarrow>
            step_start_time (snd (analyze a)) = Some (time a ! 20)
            \<and> step_amplitude (snd (analyze a)) = Fin 25)"
proof (intro conjI allI impI)
  fix i assume "first_step (sp a) i"
  note eq = analyze_step_attrs [OF assms this]
  show "step_start_time (snd (analyze a)) = Some (time a ! i)" by (simp add: eq)
  show "initial_value (snd (analyze a)) = Fin (mean_before (pv a) i)" by (simp add: eq)
  show "final_value (snd (analyze a)) = sp a ! i" by (simp add: eq)
  show "step_amplitude (snd (analyze a)) = Fin (sp a ! i - mean_before (pv a) i)" by (simp add: eq)
next
  fix rest assume h: "sp a = replicate 20 25 @ 50 # rest \<and> mean_before (pv a) 20 = 25"
  then have "first_step (sp a) 20" using first_step_20 [of rest] by simp
  note eq = analyze_step_attrs [OF assms this]
  show "step_start_time (snd (analyze a)) = Some (time a ! 20)" by (simp add: eq)
  show "step_amplitude (snd (analyze a)) = Fin 25" using h by (simp add: eq nth_append)
qed

theorem step_detection_witness:
  "first_step (sp warm_trace) 20
   \<and> sp warm_trace = replicate 20 25 @ [50] \<and> mean_before (pv warm_trace) 20 = 25
   \<and> step_start_time (snd (analyze warm_trace)) = Some 2
   \<and> initial_value (snd (analyze warm_trace)) = Fin 25
   \<and> final_value (snd (analyze warm_trace)) = 50
   \<and> step_amplitude (snd (analyze warm_trace)) = Fin 25"
proof -
  have l: "length (pv warm_trace) = length (time warm_trace)"
    "length (sp warm_trace) = length (time warm_trace)" "10 \<le> length (time warm_trace)"
    by (simp_all add: warm_trace_def recorded_def ramp_def)
  have sp: "sp warm_trace = replicate 20 25 @ [50]" by (simp add: warm_trace_def recorded_def)
  have f: "first_step (sp warm_trace) 20" unfolding sp by (rule first_step_20)
  have m: "mean_before (pv warm_trace) 20 = 25"
    by (simp add: warm_trace_def recorded_def mean_before_replicate)
  have t: "time warm_trace ! 20 = 2" by (simp add: warm_trace_def recorded_def ramp_def)
  have s: "sp warm_trace ! 20 = 50" by (simp add: sp nth_append)
  from step_detection [OF l] f sp m t s show ?thesis by simp
qed

text \<open>
  C5 as stated fails: the setpoint of \<open>cold_trace\<close> is 25 and jumps to 50 at sample 20,
  but its process value is 0, so the amplitude is 50.
\<close>

theorem step_amplitude_not_25:
  "sp cold_trace = replicate 20 25 @ [50] \<and> length (time cold_trace) = 21
   \<and> step_amplitude (snd (analyze cold_trace)) = Fin 50
   \<and> step_amplitude (snd (analyze cold_trace)) \<noteq> Fin 25"
proof -
  have l: "length (pv cold_trace) = length (time cold_trace)"
    "length (sp cold_trace) = length (time cold_trace)" "10 \<le> length (time cold_trace)"
    by (simp_all add: cold_trace_def recorded_def ramp_def)
  have sp: "sp cold_trace = replicate 20 25 @ [50]" by (simp add: cold_trace_def recorded_def)
  have f: "first_step (sp cold_trace) 20" unfolding sp by (rule first_step_20)
  have m: "mean_before (pv cold_trace) 20 = 0"
    by (simp add: cold_trace_def recorded_def mean_before_replicate)
  have s: "sp cold_trace ! 20 = 50" by (simp add: sp nth_append)
  show ?thesis using analyze_step_attrs [OF l f] sp m s
    by (simp add: cold_trace_def recorded_def ramp_def)
qed

subsection \<open>The metrics\<close>




lemma py_index_nat: "j < length xs \<Longrightarrow> py_index xs (int j) = Inr (xs ! j)"
  by (simp add: py_index_def)





lemma analyze_response_trace:
  "fst (analyze response_trace) =
Inr (Some response_metrics)"
  "step_start_time (snd (analyze response_trace)) = Some 0.2"
  "final_value (snd (analyze response_trace)) = 30"
  "step_amplitude (snd (analyze response_trace)) = Fin 10"
  by (simp_all add: response_trace_def response_metrics_def eval_defs)





text \<open>
  C10 (fields of a metrics snapshot). Whenever \<^verbatim>\<open>analyze\<close> returns metrics, they hold
  overshoot, settling_time and steady_state_error, and no key other than these and
  rise_time.
\<close>

theorem metrics_fields:
  assumes "fst (analyze a) = Inr (Some m)"
  shows "m ''overshoot'' \<noteq> None \<and> m ''settling_time'' \<noteq> None
       \<and> m ''steady_state_error'' \<noteq> None
       \<and> dom m \<subseteq> {''rise_time'', ''overshoot'', ''settling_time'', ''steady_state_error''}"
proof -
  from assms obtain i t where "calculate_metrics (snd (analyze a)) = Inr m"
    by (rule analyze_Some)
  then obtain t0 rs re m1 max_pv st where
    r: "rise_time_entry (snd (analyze a)) rs re = Inr m1" and
    m: "m = m1(''overshoot'' \<mapsto> np_mul (np_div (Fin (max_pv - final_value (snd (analyze a)))) (step_amplitude (snd (analyze a)))) (Fin 100),
            ''settling_time'' \<mapsto> Fin st,
            ''steady_state_error'' \<mapsto> np_sub (Fin (final_value (snd (analyze a)))) (np_mean (py_slice_from (pv (snd (analyze a))) (- 20))))"
    by (rule calculate_metrics_Inr)
  from rise_time_entry_dom [OF r] show ?thesis unfolding m by auto
qed

theorem metrics_fields_witness:
  "fst (analyze response_trace) = Inr (Some response_metrics)
   \<and> response_metrics ''overshoot'' \<noteq> None \<and> response_metrics ''settling_time'' \<noteq> None
   \<and> response_metrics ''steady_state_error'' \<noteq> None
   \<and> dom response_metrics \<subseteq> {''rise_time'', ''overshoot'', ''settling_time'', ''steady_state_error''}"
  using metrics_fields [OF analyze_response_trace(1)] analyze_response_trace(1) by simp

subsection \<open>When analyze returns\<close>

text \<open>
  With finite values and no overflow, as modelled here: for a trace whose sequences have
  one length, \<^verbatim>\<open>analyze\<close> returns whenever the index
  \<^verbatim>\<open>int(step_start_time * 10)\<close> of a detected step is one that \<^verbatim>\<open>pv\<close> accepts. A step
  amplitude of 0 does not make it raise: the amplitude is a numpy value, and the
  overshoot becomes an infinity or nan.
\<close>

lemma py_index_ok: "index_ok xs i \<Longrightarrow> \<exists>x. py_index xs i = Inr x"
  by (auto simp: index_ok_def py_index_def)

lemma rise_loop_returns:
  assumes "\<forall>i\<in>set is. index_ok pvs i"
  shows "\<exists>rs' re'. rise_loop pvs r10 r90 is rs re = Inr (rs', re')
           \<and> (rs' = rs \<or> (\<exists>i\<in>set is. rs' = Some i)) \<and> (re' = re \<or> (\<exists>i\<in>set is. re' = Some i))"
  using assms
proof (induction "is" arbitrary: rs)
  case Nil
  then show ?case by simp
next
  case (Cons i "is")
  from Cons.prems obtain x where x: "py_index pvs i = Inr x"
    using py_index_ok [of pvs i] by auto
  let ?rs = "if rs = None \<and> np_ge (Fin x) r10 then Some i else rs"
  from Cons.prems have "\<forall>i\<in>set is. index_ok pvs i" by simp
  from Cons.IH [OF this, of ?rs]
  obtain rs' re' where "rise_loop pvs r10 r90 is ?rs re = Inr (rs', re')"
    "rs' = ?rs \<or> (\<exists>i\<in>set is. rs' = Some i)" "re' = re \<or> (\<exists>i\<in>set is. re' = Some i)"
    by blast
  with x show ?case by (auto simp: Let_def)
qed

lemma settling_loop_returns:
  assumes "\<forall>i\<in>set is. index_ok pvs i"
  shows "\<exists>r. settling_loop pvs fv band is = Inr r \<and> (r = None \<or> (\<exists>i\<in>set is. r = Some i))"
  using assms
proof (induction "is")
  case Nil
  then show ?case by simp
next
  case (Cons i "is")
  from Cons.prems obtain x where x: "py_index pvs i = Inr x"
    using py_index_ok [of pvs i] by auto
  from Cons.prems Cons.IH
  obtain r where "settling_loop pvs fv band is = Inr r" "r = None \<or> (\<exists>i\<in>set is. r = Some i)"
    by auto
  with x show ?case by auto
qed

lemma calculate_metrics_returns:
  assumes len: "length (time b) = length (pv b)" and t0: "step_start_time b = Some t0"
    and k: "index_ok (pv b) (py_int (t0 * 10))"
  shows "\<exists>m. calculate_metrics b = Inr m"
proof -
  let ?k = "py_int (t0 * 10)"
  let ?n = "int (length (pv b))"
  have ok: "index_ok (time b) i" if "index_ok (pv b) i" for i
    using that len by (simp add: index_ok_def)
  have up: "\<forall>i\<in>set (py_range ?k ?n). index_ok (pv b) i"
    using k by (auto simp: py_range_def index_ok_def)
  have down: "\<forall>i\<in>set (py_range_down (?n - 1) ?k). index_ok (pv b) i"
    using k by (auto simp: py_range_down_def index_ok_def)
  from rise_loop_returns [OF up]
  obtain rs re where r: "rise_loop (pv b)
       (np_add (initial_value b) (np_mul (Fin 0.1) (step_amplitude b)))
       (np_add (initial_value b) (np_mul (Fin 0.9) (step_amplitude b)))
       (py_range ?k ?n) None None = Inr (rs, re)"
    and rs: "rs = None \<or> (\<exists>i\<in>set (py_range ?k ?n). rs = Some i)"
    and re: "re = None \<or> (\<exists>i\<in>set (py_range ?k ?n). re = Some i)" by blast
  have "\<exists>m1. rise_time_entry b rs re = Inr m1"
  proof (cases "py_truthy rs \<and> py_truthy re")
    case False
    then show ?thesis by (auto simp: rise_time_entry_def)
  next
    case True
    then obtain s e where se: "rs = Some s" "re = Some e" by (cases rs; cases re) auto
    with rs re up have "index_ok (time b) s" "index_ok (time b) e" by (auto intro: ok)
    then obtain ts te where "py_index (time b) s = Inr ts" "py_index (time b) e = Inr te"
      using py_index_ok by blast
    with se True show ?thesis by (simp add: rise_time_entry_def)
  qed
  then obtain m1 where m1: "rise_time_entry b rs re = Inr m1" by blast
  have "py_slice_from (pv b) ?k \<noteq> []"
    using k by (auto simp: py_slice_from_def py_clamp_def index_ok_def Let_def)
  then have "\<exists>max_pv. py_max (py_slice_from (pv b) ?k) = Inr max_pv"
    by (cases "py_slice_from (pv b) ?k") (simp_all add: py_max_def)
  then obtain max_pv where mx: "py_max (py_slice_from (pv b) ?k) = Inr max_pv" by blast
  from settling_loop_returns [OF down]
  obtain r where sl: "settling_loop (pv b) (final_value b) (np_mul (Fin 0.02) (step_amplitude b))
       (py_range_down (?n - 1) ?k) = Inr r"
    and r': "r = None \<or> (\<exists>i\<in>set (py_range_down (?n - 1) ?k). r = Some i)" by blast
  have "index_ok (time b) (case r of None \<Rightarrow> - 1 | Some i \<Rightarrow> i)"
  proof (cases r)
    case None
    with k len show ?thesis by (auto simp: index_ok_def)
  next
    case (Some i)
    with r' down show ?thesis by (auto intro: ok)
  qed
  then obtain tt where "py_index (time b) (case r of None \<Rightarrow> - 1 | Some i \<Rightarrow> i) = Inr tt"
    using py_index_ok by blast
  with sl have "\<exists>st. settling_entry b t0 ?k = Inr st"
    by (cases r) (simp_all add: settling_entry_def)
  then obtain st where st: "settling_entry b t0 ?k = Inr st" by blast
  show ?thesis
    by (simp add: calculate_metrics_def t0 r m1 mx st)
qed

lemma analyze_returns:
  assumes "length (pv a) = length (time a)" "length (sp a) = length (time a)"
    and "\<forall>i. find_step (sp a) = Some i \<longrightarrow> index_ok (pv a) (py_int (time a ! i * 10))"
  shows "\<exists>r. fst (analyze a) = Inr r"
proof (cases "length (time a) < 10 \<or> find_step (sp a) = None")
  case True
  then show ?thesis by (auto simp: analyze_def)
next
  case False
  then obtain i where i: "find_step (sp a) = Some i" and ten: "10 \<le> length (time a)" by auto
  from find_step_first [OF i] have fs: "first_step (sp a) i" .
  note eq = analyze_step_attrs [OF assms(1,2) ten fs]
  from fs assms have t: "py_index (time a) (int i) = Inr (time a ! i)"
    by (simp add: first_step_def py_index_nat)
  have "\<exists>m. calculate_metrics (snd (analyze a)) = Inr m"
    using assms i by (intro calculate_metrics_returns [where ?t0.0 = "time a ! i"]) (simp_all add: eq)
  then obtain m where "calculate_metrics (snd (analyze a)) = Inr m" by blast
  moreover have "fst (analyze a) = map_sum id Some (calculate_metrics (snd (analyze a)))"
    using ten i t by (simp add: analyze_def Let_def)
  ultimately show ?thesis by simp
qed

lemma analyze_zero_amplitude:
  "step_amplitude (snd (analyze still_trace)) = Fin 0"
  "fst (analyze still_trace) =
     Inr (Some [''rise_time'' \<mapsto> Fin 0, ''overshoot'' \<mapsto> PInf, ''settling_time'' \<mapsto> Fin 0.3,
                ''steady_state_error'' \<mapsto> Fin (- 0.1)])"
  by (simp_all add: still_trace_def eval_defs)

section \<open>Properties of the telemetry store and the min/max tracking\<close>

lemma length_deque_append:
  "length (deque_append n d x) = (if length d < n then Suc (length d) else length d)"
  by (simp add: deque_append_def)

lemma deque_append_full: "length d = n \<Longrightarrow> 0 < n \<Longrightarrow> deque_append n d x = tl d @ [x]"
  by (cases d) (simp_all add: deque_append_def)

lemma deque_append_drop:
  "length d \<le> n \<Longrightarrow> deque_append n d x = drop (Suc (length d) - n) (d @ [x])"
proof (cases "length d < n")
  case True
  then show ?thesis by (simp add: deque_append_def)
next
  case False
  assume "length d \<le> n"
  with False have "Suc (length d) - n = 1" by simp
  with False show ?thesis by (simp add: deque_append_def drop_Suc del: drop_append)
qed

lemma foldl_deque_append:
  "foldl (deque_append n) [] xs = drop (length xs - n) xs"
proof (induction xs rule: rev_induct)
  case Nil
  show ?case by simp
next
  case (snoc x xs)
  let ?d = "drop (length xs - n) xs"
  have len: "length ?d \<le> n" by simp
  have "foldl (deque_append n) [] (xs @ [x]) = deque_append n ?d x"
    using snoc by simp
  also have "\<dots> = drop (Suc (length ?d) - n) (?d @ [x])"
    by (rule deque_append_drop [OF len])
  also have "\<dots> = drop (length (xs @ [x]) - n) (xs @ [x])"
  proof (cases "length xs < n")
    case True
    then show ?thesis by simp
  next
    case False
    then have "Suc (length ?d) - n = 1" "length (xs @ [x]) - n = Suc (length xs - n)"
      by simp_all
    then show ?thesis by (simp add: drop_Suc tl_drop)
  qed
  finally show ?case .
qed

lemma update_minmax_series:
  "time_data (update_minmax s a b c d) = time_data s"
  "pv_data (update_minmax s a b c d) = pv_data s"
  "sp_data (update_minmax s a b c d) = sp_data s"
  "output_data (update_minmax s a b c d) = output_data s"
  "error_data (update_minmax s a b c d) = error_data s"
  "p_term_data (update_minmax s a b c d) = p_term_data s"
  "i_term_data (update_minmax s a b c d) = i_term_data s"
  "d_term_data (update_minmax s a b c d) = d_term_data s"
  by (simp_all add: update_minmax_def Let_def)

lemma process_msg_Data_series:
  "time_data (process_msg s (Data d)) = deque_append max_points (time_data s) (msg_time d / 1000)"
  "pv_data (process_msg s (Data d)) = deque_append max_points (pv_data s) (msg_pv d)"
  "sp_data (process_msg s (Data d)) = deque_append max_points (sp_data s) (msg_sp d)"
  "output_data (process_msg s (Data d)) = deque_append max_points (output_data s) (msg_output d)"
  "error_data (process_msg s (Data d)) = deque_append max_points (error_data s) (msg_error d)"
  "p_term_data (process_msg s (Data d)) = deque_append max_points (p_term_data s) (msg_get (msg_P d) 0)"
  "i_term_data (process_msg s (Data d)) = deque_append max_points (i_term_data s) (msg_get (msg_I d) 0)"
  "d_term_data (process_msg s (Data d)) = deque_append max_points (d_term_data s) (msg_get (msg_D d) 0)"
  by (simp_all add: process_msg_def Let_def update_minmax_series)

lemma process_msg_store_length:
  assumes "store_length s k" and "k \<le> max_points"
  shows "\<exists>k'. k' \<le> max_points \<and> store_length (process_msg s m) k'"
proof (cases m)
  case (Data d)
  from assms show ?thesis unfolding Data store_length_def
    by (simp add: process_msg_Data_series length_deque_append)
next
  case Status
  with assms show ?thesis by (auto simp: process_msg_def)
next
  case StepTestStarted
  with assms show ?thesis by (auto simp: process_msg_def store_length_def)
next
  case StepTestComplete
  with assms show ?thesis by (auto simp: process_msg_def store_length_def)
qed

lemma process_data_store_length:
  "store_length s k \<Longrightarrow> k \<le> max_points \<Longrightarrow>
     \<exists>k'. k' \<le> max_points \<and> store_length (process_data s ms) k'"
proof (induction ms arbitrary: s k)
  case Nil
  then show ?case by (auto simp: process_data_def)
next
  case (Cons m ms)
  from process_msg_store_length [OF Cons.prems, of m]
  obtain k' where "k' \<le> max_points" "store_length (process_msg s m) k'" by blast
  from Cons.IH [OF this(2) this(1)] show ?case by (simp add: process_data_def)
qed

lemma process_data_Data_series:
  "time_data (process_data s (map Data ds)) = foldl (deque_append max_points) (time_data s) (map (\<lambda>d. msg_time d / 1000) ds)"
  "pv_data (process_data s (map Data ds)) = foldl (deque_append max_points) (pv_data s) (map msg_pv ds)"
  "sp_data (process_data s (map Data ds)) = foldl (deque_append max_points) (sp_data s) (map msg_sp ds)"
  "output_data (process_data s (map Data ds)) = foldl (deque_append max_points) (output_data s) (map msg_output ds)"
  "error_data (process_data s (map Data ds)) = foldl (deque_append max_points) (error_data s) (map msg_error ds)"
  "p_term_data (process_data s (map Data ds)) = foldl (deque_append max_points) (p_term_data s) (map (\<lambda>d. msg_get (msg_P d) 0) ds)"
  "i_term_data (process_data s (map Data ds)) = foldl (deque_append max_points) (i_term_data s) (map (\<lambda>d. msg_get (msg_I d) 0) ds)"
  "d_term_data (process_data s (map Data ds)) = foldl (deque_append max_points) (d_term_data s) (map (\<lambda>d. msg_get (msg_D d) 0) ds)"
  unfolding process_data_def
  by (induction ds arbitrary: s; simp add: process_msg_Data_series)+

lemma overflow_by_one:
  "length ds = Suc n \<Longrightarrow> foldl (deque_append n) [] (map f ds) = map f (tl ds)"
  by (simp add: foldl_deque_append drop_Suc map_tl)

text \<open>
  C7 (capacity invariant and FIFO eviction). From the empty store of \<^verbatim>\<open>__init__\<close>, after
  any sequence of messages, the eight series have one common length, which is at most
  864000. A data message that arrives at a full store drops the oldest sample of every
  series and appends the new one; so after 864001 data messages the store holds the
  second to the last of them, in their order of arrival.
\<close>

theorem store_capacity_fifo:
  "store_length (process_data init_app ms) (length (time_data (process_data init_app ms)))
   \<and> length (time_data (process_data init_app ms)) \<le> 864000
   \<and> (store_length s max_points \<longrightarrow>
        time_data (process_msg s (Data d)) = tl (time_data s) @ [msg_time d / 1000]
        \<and> pv_data (process_msg s (Data d)) = tl (pv_data s) @ [msg_pv d]
        \<and> sp_data (process_msg s (Data d)) = tl (sp_data s) @ [msg_sp d]
        \<and> output_data (process_msg s (Data d)) = tl (output_data s) @ [msg_output d]
        \<and> error_data (process_msg s (Data d)) = tl (error_data s) @ [msg_error d]
        \<and> p_term_data (process_msg s (Data d)) = tl (p_term_data s) @ [msg_get (msg_P d) 0]
        \<and> i_term_data (process_msg s (Data d)) = tl (i_term_data s) @ [msg_get (msg_I d) 0]
        \<and> d_term_data (process_msg s (Data d)) = tl (d_term_data s) @ [msg_get (msg_D d) 0])
   \<and> (length ds = max_points + 1 \<longrightarrow>
        time_data (process_data init_app (map Data ds)) = map (\<lambda>d. msg_time d / 1000) (tl ds)
        \<and> pv_data (process_data init_app (map Data ds)) = map msg_pv (tl ds)
        \<and> sp_data (process_data init_app (map Data ds)) = map msg_sp (tl ds)
        \<and> output_data (process_data init_app (map Data ds)) = map msg_output (tl ds)
        \<and> error_data (process_data init_app (map Data ds)) = map msg_error (tl ds)
        \<and> p_term_data (process_data init_app (map Data ds)) = map (\<lambda>d. msg_get (msg_P d) 0) (tl ds)
        \<and> i_term_data (process_data init_app (map Data ds)) = map (\<lambda>d. msg_get (msg_I d) 0) (tl ds)
        \<and> d_term_data (process_data init_app (map Data ds)) = map (\<lambda>d. msg_get (msg_D d) 0) (tl ds))"
proof -
  have init: "store_length init_app 0" by (simp add: store_length_def init_app_def)
  from process_data_store_length [OF init, of ms]
  obtain k where k: "k \<le> max_points" "store_length (process_data init_app ms) k" by auto
  then have k': "length (time_data (process_data init_app ms)) = k" by (simp add: store_length_def)
  have 1: "store_length (process_data init_app ms) (length (time_data (process_data init_app ms)))"
    using k k' by simp
  have 2: "length (time_data (process_data init_app ms)) \<le> 864000"
    using k k' by (simp add: max_points_def)
  have 3: "store_length s max_points \<longrightarrow>
        time_data (process_msg s (Data d)) = tl (time_data s) @ [msg_time d / 1000]
        \<and> pv_data (process_msg s (Data d)) = tl (pv_data s) @ [msg_pv d]
        \<and> sp_data (process_msg s (Data d)) = tl (sp_data s) @ [msg_sp d]
        \<and> output_data (process_msg s (Data d)) = tl (output_data s) @ [msg_output d]
        \<and> error_data (process_msg s (Data d)) = tl (error_data s) @ [msg_error d]
        \<and> p_term_data (process_msg s (Data d)) = tl (p_term_data s) @ [msg_get (msg_P d) 0]
        \<and> i_term_data (process_msg s (Data d)) = tl (i_term_data s) @ [msg_get (msg_I d) 0]
        \<and> d_term_data (process_msg s (Data d)) = tl (d_term_data s) @ [msg_get (msg_D d) 0]"
    by (simp add: store_length_def process_msg_Data_series deque_append_full max_points_def)
  have 4: "length ds = max_points + 1 \<longrightarrow>
        time_data (process_data init_app (map Data ds)) = map (\<lambda>d. msg_time d / 1000) (tl ds)
        \<and> pv_data (process_data init_app (map Data ds)) = map msg_pv (tl ds)
        \<and> sp_data (process_data init_app (map Data ds)) = map msg_sp (tl ds)
        \<and> output_data (process_data init_app (map Data ds)) = map msg_output (tl ds)
        \<and> error_data (process_data init_app (map Data ds)) = map msg_error (tl ds)
        \<and> p_term_data (process_data init_app (map Data ds)) = map (\<lambda>d. msg_get (msg_P d) 0) (tl ds)
        \<and> i_term_data (process_data init_app (map Data ds)) = map (\<lambda>d. msg_get (msg_I d) 0) (tl ds)
        \<and> d_term_data (process_data init_app (map Data ds)) = map (\<lambda>d. msg_get (msg_D d) 0) (tl ds)"
    by (simp add: process_data_Data_series init_app_def overflow_by_one)
  from 1 2 3 4 show ?thesis by blast
qed

theorem store_capacity_fifo_witness:
  "store_length full_store max_points
   \<and> time_data (process_msg full_store (Data sample_msg)) = tl (time_data full_store) @ [3 / 2]
   \<and> length (time_data (process_msg full_store (Data sample_msg))) = 864000
   \<and> length (replicate (max_points + 1) sample_msg) = max_points + 1
   \<and> pv_data (process_data init_app (map Data (replicate (max_points + 1) sample_msg)))
       = map msg_pv (tl (replicate (max_points + 1) sample_msg))"
proof -
  have f: "store_length full_store max_points"
    by (simp add: store_length_def full_store_def)
  have l: "length (replicate (max_points + 1) sample_msg) = max_points + 1" by simp
  from store_capacity_fifo [of "[]" full_store sample_msg "replicate (max_points + 1) sample_msg"] f l
  have "time_data (process_msg full_store (Data sample_msg)) = tl (time_data full_store) @ [msg_time sample_msg / 1000]"
    and "pv_data (process_data init_app (map Data (replicate (max_points + 1) sample_msg)))
       = map msg_pv (tl (replicate (max_points + 1) sample_msg))"
    by blast+
  moreover have "length (tl (time_data full_store) @ [msg_time sample_msg / 1000]) = 864000"
    by (simp add: full_store_def max_points_def)
  ultimately show ?thesis using f l by (simp add: sample_msg_def)
qed

text \<open>
  C8 (clear semantics). \<^verbatim>\<open>clear_plot\<close> empties the eight series and leaves the six
  min/max values as they are; \<^verbatim>\<open>clear_minmax\<close> sets the six min/max values to N/A and
  leaves the eight series as they are.
\<close>

theorem clear_plot_clear_minmax_frame:
  "time_data (clear_plot s) = [] \<and> pv_data (clear_plot s) = [] \<and> sp_data (clear_plot s) = []
   \<and> output_data (clear_plot s) = [] \<and> error_data (clear_plot s) = []
   \<and> p_term_data (clear_plot s) = [] \<and> i_term_data (clear_plot s) = []
   \<and> d_term_data (clear_plot s) = []
   \<and> pv_min (clear_plot s) = pv_min s \<and> pv_max (clear_plot s) = pv_max s
   \<and> error_min (clear_plot s) = error_min s \<and> error_max (clear_plot s) = error_max s
   \<and> output_min (clear_plot s) = output_min s \<and> output_max (clear_plot s) = output_max s
   \<and> pv_min (clear_minmax s) = NA \<and> pv_max (clear_minmax s) = NA
   \<and> error_min (clear_minmax s) = NA \<and> error_max (clear_minmax s) = NA
   \<and> output_min (clear_minmax s) = NA \<and> output_max (clear_minmax s) = NA
   \<and> time_data (clear_minmax s) = time_data s \<and> pv_data (clear_minmax s) = pv_data s
   \<and> sp_data (clear_minmax s) = sp_data s \<and> output_data (clear_minmax s) = output_data s
   \<and> error_data (clear_minmax s) = error_data s \<and> p_term_data (clear_minmax s) = p_term_data s
   \<and> i_term_data (clear_minmax s) = i_term_data s \<and> d_term_data (clear_minmax s) = d_term_data s"
  by (simp add: clear_plot_def clear_minmax_def)

subsection \<open>Min/max tracking\<close>

lemma round_half_even_bounds:
  "\<lfloor>x\<rfloor> \<le> round_half_even x \<and> round_half_even x \<le> \<lfloor>x\<rfloor> + 1"
  by (simp add: round_half_even_def Let_def)

lemma round_half_even_mono:
  assumes "x \<le> y" shows "round_half_even x \<le> round_half_even y"
proof (cases "\<lfloor>x\<rfloor> = \<lfloor>y\<rfloor>")
  case True
  with assms show ?thesis by (auto simp: round_half_even_def Let_def)
next
  case False
  with assms have "\<lfloor>x\<rfloor> + 1 \<le> \<lfloor>y\<rfloor>" using floor_mono [OF assms] by linarith
  with round_half_even_bounds [of x] round_half_even_bounds [of y] show ?thesis by linarith
qed

lemma round_half_even_of_int: "round_half_even (of_int k) = k"
  by (simp add: round_half_even_def)

lemma format_f_mono: "x \<le> y \<Longrightarrow> format_f d x \<le> format_f d y"
  by (simp add: format_f_def divide_right_mono round_half_even_mono mult_right_mono)

lemma format_f_idem: "format_f d (format_f d x) = format_f d x"
  by (simp add: format_f_def round_half_even_of_int)

lemma format_f_min: "format_f d (min x (format_f d y)) = format_f d (min x y)"
proof -
  have m: "\<And>a b. format_f d (min a b) = min (format_f d a) (format_f d b)"
    by (rule min_of_mono [symmetric]) (simp add: mono_def format_f_mono)
  show ?thesis by (simp add: m format_f_idem)
qed

lemma format_f_max: "format_f d (max x (format_f d y)) = format_f d (max x y)"
proof -
  have m: "\<And>a b. format_f d (max a b) = max (format_f d a) (format_f d b)"
    by (rule max_of_mono [symmetric]) (simp add: mono_def format_f_mono)
  show ?thesis by (simp add: m format_f_idem)
qed

lemma process_msg_Data_minmax:
  "pv_min (process_msg s (Data d)) =
     (case pv_min s of NA \<Rightarrow> Shown (format_f 2 (msg_pv d))
                     | Shown c \<Rightarrow> Shown (format_f 2 (min (msg_pv d) c)))"
  "pv_max (process_msg s (Data d)) =
     (case pv_max s of NA \<Rightarrow> Shown (format_f 2 (msg_pv d))
                     | Shown c \<Rightarrow> Shown (format_f 2 (max (msg_pv d) c)))"
  "error_min (process_msg s (Data d)) =
     (case error_min s of NA \<Rightarrow> Shown (format_f 2 (msg_error d))
                        | Shown c \<Rightarrow> Shown (format_f 2 (min (msg_error d) c)))"
  "error_max (process_msg s (Data d)) =
     (case error_max s of NA \<Rightarrow> Shown (format_f 2 (msg_error d))
                        | Shown c \<Rightarrow> Shown (format_f 2 (max (msg_error d) c)))"
  "output_min (process_msg s (Data d)) =
     (case output_min s of NA \<Rightarrow> Shown (format_f 0 (msg_output d))
                         | Shown c \<Rightarrow> Shown (format_f 0 (min (msg_output d) c)))"
  "output_max (process_msg s (Data d)) =
     (case output_max s of NA \<Rightarrow> Shown (format_f 0 (msg_output d))
                         | Shown c \<Rightarrow> Shown (format_f 0 (max (msg_output d) c)))"
  by (simp_all add: process_msg_def update_minmax_def Let_def)

lemma process_data_snoc: "process_data s (ms @ [m]) = process_msg (process_data s ms) m"
  by (simp add: process_data_def)

lemma tracked_min:
  assumes step: "\<And>s d. sel (process_msg s (Data d)) =
       (case sel s of NA \<Rightarrow> Shown (format_f k (f d))
                    | Shown c \<Rightarrow> Shown (format_f k (min (f d) c)))"
    and start: "sel s0 = NA" and ne: "ds \<noteq> []"
  shows "sel (process_data s0 (map Data ds)) = Shown (format_f k (Min (set (map f ds))))"
  using ne
proof (induction ds rule: rev_induct)
  case Nil
  then show ?case by simp
next
  case (snoc d ds)
  show ?case
  proof (cases "ds = []")
    case True
    then show ?thesis by (simp add: process_data_def step start)
  next
    case False
    with snoc have "sel (process_data s0 (map Data ds)) = Shown (format_f k (Min (set (map f ds))))"
      by simp
    with False show ?thesis
      by (simp add: process_data_snoc step format_f_min)
  qed
qed

lemma tracked_max:
  assumes step: "\<And>s d. sel (process_msg s (Data d)) =
       (case sel s of NA \<Rightarrow> Shown (format_f k (f d))
                    | Shown c \<Rightarrow> Shown (format_f k (max (f d) c)))"
    and start: "sel s0 = NA" and ne: "ds \<noteq> []"
  shows "sel (process_data s0 (map Data ds)) = Shown (format_f k (Max (set (map f ds))))"
  using ne
proof (induction ds rule: rev_induct)
  case Nil
  then show ?case by simp
next
  case (snoc d ds)
  show ?case
  proof (cases "ds = []")
    case True
    then show ?thesis by (simp add: process_data_def step start)
  next
    case False
    with snoc have "sel (process_data s0 (map Data ds)) = Shown (format_f k (Max (set (map f ds))))"
      by simp
    with False show ?thesis
      by (simp add: process_data_snoc step format_f_max)
  qed
qed

text \<open>
  C2 (min/max tracking), as amended. After \<^verbatim>\<open>clear_minmax\<close> and one or more data
  messages, each of the six tracked values is set, and it is the minimum (or maximum) of
  its field over those messages, rounded to the decimals of its text: two for the
  process value and the error, none for the output.
\<close>

theorem minmax_tracks_rounded_extrema:
  assumes "ds \<noteq> []"
  shows "pv_min (process_data (clear_minmax s) (map Data ds)) = Shown (format_f 2 (Min (set (map msg_pv ds))))
       \<and> pv_max (process_data (clear_minmax s) (map Data ds)) = Shown (format_f 2 (Max (set (map msg_pv ds))))
       \<and> error_min (process_data (clear_minmax s) (map Data ds)) = Shown (format_f 2 (Min (set (map msg_error ds))))
       \<and> error_max (process_data (clear_minmax s) (map Data ds)) = Shown (format_f 2 (Max (set (map msg_error ds))))
       \<and> output_min (process_data (clear_minmax s) (map Data ds)) = Shown (format_f 0 (Min (set (map msg_output ds))))
       \<and> output_max (process_data (clear_minmax s) (map Data ds)) = Shown (format_f 0 (Max (set (map msg_output ds))))"
proof -
  have 1: "pv_min (process_data (clear_minmax s) (map Data ds)) = Shown (format_f 2 (Min (set (map msg_pv ds))))"
    by (rule tracked_min [OF process_msg_Data_minmax(1) _ assms]) (simp add: clear_minmax_def)
  have 2: "pv_max (process_data (clear_minmax s) (map Data ds)) = Shown (format_f 2 (Max (set (map msg_pv ds))))"
    by (rule tracked_max [OF process_msg_Data_minmax(2) _ assms]) (simp add: clear_minmax_def)
  have 3: "error_min (process_data (clear_minmax s) (map Data ds)) = Shown (format_f 2 (Min (set (map msg_error ds))))"
    by (rule tracked_min [OF process_msg_Data_minmax(3) _ assms]) (simp add: clear_minmax_def)
  have 4: "error_max (process_data (clear_minmax s) (map Data ds)) = Shown (format_f 2 (Max (set (map msg_error ds))))"
    by (rule tracked_max [OF process_msg_Data_minmax(4) _ assms]) (simp add: clear_minmax_def)
  have 5: "output_min (process_data (clear_minmax s) (map Data ds)) = Shown (format_f 0 (Min (set (map msg_output ds))))"
    by (rule tracked_min [OF process_msg_Data_minmax(5) _ assms]) (simp add: clear_minmax_def)
  have 6: "output_max (process_data (clear_minmax s) (map Data ds)) = Shown (format_f 0 (Max (set (map msg_output ds))))"
    by (rule tracked_max [OF process_msg_Data_minmax(6) _ assms]) (simp add: clear_minmax_def)
  from 1 2 3 4 5 6 show ?thesis by simp
qed

theorem minmax_tracks_rounded_extrema_witness:
  "four_msgs \<noteq> []
   \<and> pv_min (process_data (clear_minmax init_app) (map Data four_msgs)) = Shown 1
   \<and> pv_max (process_data (clear_minmax init_app) (map Data four_msgs)) = Shown 9
   \<and> error_min (process_data (clear_minmax init_app) (map Data four_msgs)) = Shown 16
   \<and> error_max (process_data (clear_minmax init_app) (map Data four_msgs)) = Shown 24
   \<and> output_min (process_data (clear_minmax init_app) (map Data four_msgs)) = Shown 128
   \<and> output_max (process_data (clear_minmax init_app) (map Data four_msgs)) = Shown 128"
proof -
  have ne: "four_msgs \<noteq> []" by (simp add: four_msgs_def)
  show ?thesis
    using minmax_tracks_rounded_extrema [OF ne, of init_app] ne
    by (simp add: four_msgs_def pv_msg_def format_f_def round_half_even_def)
qed

text \<open>
  C2 as stated fails: after a clear and one sample with the process value 1.234, the
  tracked minimum is the text 1.23, not the observed value.
\<close>

theorem minmax_not_exact:
  "pv_min (process_data (clear_minmax init_app) [Data (pv_msg 1.234)]) = Shown 1.23
   \<and> pv_min (process_data (clear_minmax init_app) [Data (pv_msg 1.234)])
       \<noteq> Shown (Min (set (map msg_pv [pv_msg 1.234])))
   \<and> output_max (process_data (clear_minmax init_app) [Data (pv_msg 1.234)])
       \<noteq> Shown (Max (set (map msg_output [pv_msg 1.234])))"
  by (simp add: process_data_def process_msg_Data_minmax clear_minmax_def init_app_def
        pv_msg_def format_f_def round_half_even_def)

end
